theory Spec2Isabelle
  imports Complex_Main
begin

section \<open>Henry Hub natural gas volatility analysis\<close>

text \<open>
  A shallow embedding of \<^verbatim>\<open>natgas_HH_volatility_analysis.py\<close>: the date rewriting
  (\<^verbatim>\<open>convert_date_format\<close>), the log returns (\<^verbatim>\<open>calculate_ln_returns\<close>), the rolling
  standard deviation (\<^verbatim>\<open>calculate_rolling_volatility\<close>) and the row reversal of
  \<^verbatim>\<open>main\<close>. The script is a chain of pandas and numpy calls; each call is modelled by
  the function it computes on a column.
\<close>

subsection \<open>float64 values\<close>

text \<open>
  A float64 cell is NaN (pandas' missing value), one of the two infinities, minus zero,
  or a finite number; \<open>Fin 0\<close> is plus zero. The result of an operation is modelled by
  its kind. A nonzero quotient whose magnitude reaches \<open>2 ^ 1024 - 2 ^ 970\<close> rounds to an
  infinity (overflow), one whose magnitude is at most \<open>2 ^ - 1075\<close> rounds to the zero of
  its sign (underflow), and every other quotient rounds to a finite number that is not
  zero. Inside that range float64 keeps the nearest number of 53 bits and the model keeps
  the exact real: the properties below speak of the kind of a result (NaN, infinite,
  zero, finite) and never of the digits of a finite result.
\<close>

datatype fval = NaN | PInf | NInf | NZero | Fin real

fun is_nan :: "fval \<Rightarrow> bool" where
  "is_nan NaN = True"
| "is_nan _ = False"

fun is_inf :: "fval \<Rightarrow> bool" where
  "is_inf PInf = True"
| "is_inf NInf = True"
| "is_inf _ = False"

text \<open>A finite cell, and the number in it.\<close>

fun is_finite :: "fval \<Rightarrow> bool" where
  "is_finite (Fin _) = True"
| "is_finite NZero = True"
| "is_finite _ = False"

fun fin_val :: "fval \<Rightarrow> real" where
  "fin_val (Fin r) = r"
| "fin_val _ = 0"

definition is_zero :: "fval \<Rightarrow> bool" where
  "is_zero x \<longleftrightarrow> is_finite x \<and> fin_val x = 0"

text \<open>The sign bit.\<close>

fun is_neg :: "fval \<Rightarrow> bool" where
  "is_neg NInf = True"
| "is_neg NZero = True"
| "is_neg (Fin r) \<longleftrightarrow> r < 0"
| "is_neg _ = False"

definition signed_inf :: "bool \<Rightarrow> fval" where
  "signed_inf neg = (if neg then NInf else PInf)"

definition signed_zero :: "bool \<Rightarrow> fval" where
  "signed_zero neg = (if neg then NZero else Fin 0)"

text \<open>
  Rounding to nearest, ties to even: the largest float64 is \<open>2 ^ 1024 - 2 ^ 971\<close> and
  the smallest positive one is \<open>2 ^ - 1074\<close>, so the midpoints \<open>2 ^ 1024 - 2 ^ 970\<close> and
  \<open>2 ^ - 1075\<close> are the first number that rounds to infinity and the last that rounds to
  zero.
\<close>

definition overflow_bound :: real where
  "overflow_bound = 2 ^ 1024 - 2 ^ 970"

definition underflow_bound :: real where
  "underflow_bound = 1 / 2 ^ 1075"

definition round_float :: "real \<Rightarrow> fval" where
  "round_float q =
     (if overflow_bound \<le> \<bar>q\<bar> then signed_inf (q < 0)
      else if \<bar>q\<bar> \<le> underflow_bound then signed_zero (q < 0)
      else Fin q)"

text \<open>
  Series division \<^verbatim>\<open>a / b\<close> (numpy \<^verbatim>\<open>true_divide\<close>, which pandas runs with floating
  point errors ignored): division by zero gives an infinity or NaN and never raises.
\<close>

definition fl_div :: "fval \<Rightarrow> fval \<Rightarrow> fval" where
  "fl_div a b =
     (let neg = (is_neg a \<noteq> is_neg b)
      in if is_nan a \<or> is_nan b then NaN
         else if is_inf a then (if is_inf b then NaN else signed_inf neg)
         else if is_inf b then signed_zero neg
         else if is_zero b then (if is_zero a then NaN else signed_inf neg)
         else if is_zero a then signed_zero neg
         else round_float (fin_val a / fin_val b))"

text \<open>
  \<^verbatim>\<open>np.log\<close>: the logarithm of a zero of either sign is minus infinity and the logarithm
  of a negative number is NaN; numpy warns and does not raise. The logarithm of a
  positive float64 lies between -745 and 710, so it neither overflows nor underflows.
\<close>

fun np_log :: "fval \<Rightarrow> fval" where
  "np_log NaN = NaN"
| "np_log PInf = PInf"
| "np_log NInf = NaN"
| "np_log NZero = NInf"
| "np_log (Fin x) =
     (if 0 < x then Fin (ln x)
      else if x = 0 then NInf
      else NaN)"

text \<open>\<^verbatim>\<open>Series.shift(1)\<close>: every value moves one row down, row 0 becomes NaN.\<close>

definition shift1 :: "fval list \<Rightarrow> fval list" where
  "shift1 xs = take (length xs) (NaN # xs)"

text \<open>Elementwise division of two columns of one frame (rows are aligned by position).\<close>

definition series_div :: "fval list \<Rightarrow> fval list \<Rightarrow> fval list" where
  "series_div xs ys = map2 fl_div xs ys"

text \<open>A value is defined at a row when the row exists and the cell is not NaN.\<close>

definition defined_at :: "fval list \<Rightarrow> nat \<Rightarrow> bool" where
  "defined_at xs i \<longleftrightarrow> i < length xs \<and> xs ! i \<noteq> NaN"

subsection \<open>The data frame\<close>

text \<open>
  The frame of the script has the columns \<^verbatim>\<open>'Week of'\<close> (text; \<open>None\<close> is a missing
  cell) and \<^verbatim>\<open>'Henry Hub Natural Gas Spot Price Dollars per Million Btu'\<close> (float64),
  and the two columns the script adds, absent until they are assigned. The column name
  arguments of the functions are the names \<^verbatim>\<open>main\<close> passes.
\<close>

record dataframe =
  week_of :: "string option list"
  spot_price :: "fval list"
  ln_returns :: "fval list option"
  rolling_volatility :: "fval list option"

subsection \<open>Log returns\<close>

text \<open>
  \<^verbatim>\<open>df_copy['ln_returns'] = np.log(df_copy[price_column] / df_copy[price_column].shift(1))\<close>
\<close>

definition calculate_ln_returns :: "dataframe \<Rightarrow> dataframe" where
  "calculate_ln_returns df =
     df\<lparr>ln_returns :=
          Some (map np_log (series_div (spot_price df) (shift1 (spot_price df))))\<rparr>"

subsection \<open>Rolling standard deviation\<close>

text \<open>
  The errors the pandas calls of the script raise: the \<^verbatim>\<open>ValueError\<close> of
  \<^verbatim>\<open>pd.to_datetime\<close> for a text that is not a date (what its message carries depends on
  the kind of failure and on the pandas version, and is not modelled), the
  \<^verbatim>\<open>ValueError\<close> of \<^verbatim>\<open>rolling\<close> for a negative window (\<^verbatim>\<open>window must be an integer
  0 or greater\<close>), the \<^verbatim>\<open>OverflowError\<close> of a window that does not fit a signed 64-bit
  integer, and the \<^verbatim>\<open>KeyError\<close> of a column that is not in the frame.
\<close>

datatype pd_error = DateValueError | WindowError | WindowOverflowError | KeyError string

text \<open>
  \<^verbatim>\<open>Series.rolling(window=window).std()\<close>, as pandas computes it:
  \<^item> infinities are replaced by NaN before the window routine runs;
  \<^item> the window of row \<open>i\<close> is the rows \<open>max (i + 1 - window) 0 .. i\<close>;
  \<^item> \<^verbatim>\<open>min_periods\<close> defaults to the window length, and is at least 1;
  \<^item> with \<^verbatim>\<open>nobs\<close> the number of non-NaN values in the window and \<^verbatim>\<open>ddof = 1\<close>, the
    variance is the sum of squared differences from the mean over \<^verbatim>\<open>nobs - ddof\<close> when
    \<^verbatim>\<open>nobs >= min_periods\<close> and \<^verbatim>\<open>nobs > ddof\<close>, and NaN otherwise;
  \<^item> the standard deviation is its square root.
  The number pandas returns for a window of finite values is a float64 running estimate
  (values are added to and removed from a running mean and sum of squares), which can
  differ from the exact standard deviation and can overflow when a value of the column
  is huge. The model puts the exact standard deviation in its place; the properties
  below speak of which rows are NaN, never of the number in a defined row, and assert
  that a row is defined only for columns whose finite values are at most 1024 in
  magnitude, where the running estimate cannot overflow.
\<close>

definition prep_values :: "fval list \<Rightarrow> fval list" where
  "prep_values xs = map (\<lambda>x. if is_finite x then x else NaN) xs"

fun observations :: "fval list \<Rightarrow> real list" where
  "observations [] = []"
| "observations (x # xs) =
     (if is_finite x then fin_val x # observations xs else observations xs)"

definition window_at :: "nat \<Rightarrow> nat \<Rightarrow> 'a list \<Rightarrow> 'a list" where
  "window_at w i xs = (let e = i + 1; s = e - w in take (e - s) (drop s xs))"

definition mean_x :: "real list \<Rightarrow> real" where
  "mean_x obs = sum_list obs / real (length obs)"

definition ssqdm_x :: "real list \<Rightarrow> real" where
  "ssqdm_x obs = (\<Sum>x\<leftarrow>obs. (x - mean_x obs)\<^sup>2)"

definition roll_std_at :: "nat \<Rightarrow> fval list \<Rightarrow> nat \<Rightarrow> fval" where
  "roll_std_at w xs i =
     (let obs = observations (window_at w i xs);
          nobs = length obs;
          minp = max w 1
      in if minp \<le> nobs \<and> 1 < nobs
         then Fin (sqrt (ssqdm_x obs / (real nobs - 1)))
         else NaN)"

text \<open>
  \<^verbatim>\<open>rolling\<close> refuses a negative window, and the window routine takes the window as a
  signed 64-bit integer.
\<close>

definition rolling_std :: "int \<Rightarrow> fval list \<Rightarrow> pd_error + fval list" where
  "rolling_std window xs =
     (if window < 0 then Inl WindowError
      else if 2 ^ 63 \<le> window then Inl WindowOverflowError
      else Inr (map (roll_std_at (nat window) (prep_values xs)) [0..<length xs]))"

text \<open>
  \<^verbatim>\<open>df_copy['rolling_volatility'] = df_copy[returns_column].rolling(window=window).std()\<close>
  with \<^verbatim>\<open>returns_column = 'ln_returns'\<close>.
\<close>

definition calculate_rolling_volatility :: "dataframe \<Rightarrow> int \<Rightarrow> pd_error + dataframe" where
  "calculate_rolling_volatility df window =
     (case ln_returns df of
        None \<Rightarrow> Inl (KeyError ''ln_returns'')
      | Some rs \<Rightarrow>
          (case rolling_std window rs of
             Inl e \<Rightarrow> Inl e
           | Inr v \<Rightarrow> Inr (df\<lparr>rolling_volatility := Some v\<rparr>)))"

subsection \<open>Dates\<close>

text \<open>
  A calendar date is year, month and day. \<^verbatim>\<open>pd.to_datetime(..., format='%m/%d/%Y')\<close>
  matches each text against the regular expression of the format and then builds the
  date. The directives match
  \<^item> \<^verbatim>\<open>%m\<close>: \<^verbatim>\<open>1[0-2]|0[1-9]|[1-9]\<close>,
  \<^item> \<^verbatim>\<open>%d\<close>: \<^verbatim>\<open>3[0-1]|[1-2]\d|0[1-9]|[1-9]| [1-9]\<close>,
  \<^item> \<^verbatim>\<open>%Y\<close>: \<^verbatim>\<open>\d\d\d\d\<close>,
  and the whole text must be consumed. The two separators are fixed characters that no
  directive matches, so the match is decided field by field.
\<close>

type_synonym date = "nat \<times> nat \<times> nat"

definition digit :: "char \<Rightarrow> nat option" where
  "digit c =
     map_of [(CHR ''0'', 0), (CHR ''1'', 1), (CHR ''2'', 2), (CHR ''3'', 3), (CHR ''4'', 4),
             (CHR ''5'', 5), (CHR ''6'', 6), (CHR ''7'', 7), (CHR ''8'', 8), (CHR ''9'', 9)] c"

definition digit_char :: "nat \<Rightarrow> char" where
  "digit_char k = ''0123456789'' ! k"

fun field_m :: "string \<Rightarrow> nat option" where
  "field_m [a, b] =
     (case (digit a, digit b) of
        (Some x, Some y) \<Rightarrow>
          if (x = 1 \<and> y \<le> 2) \<or> (x = 0 \<and> 1 \<le> y) then Some (10 * x + y) else None
      | _ \<Rightarrow> None)"
| "field_m [a] = (case digit a of Some x \<Rightarrow> if 1 \<le> x then Some x else None | None \<Rightarrow> None)"
| "field_m _ = None"

fun field_d :: "string \<Rightarrow> nat option" where
  "field_d [a, b] =
     (case (digit a, digit b) of
        (Some x, Some y) \<Rightarrow>
          if (x = 3 \<and> y \<le> 1) \<or> (1 \<le> x \<and> x \<le> 2) \<or> (x = 0 \<and> 1 \<le> y)
          then Some (10 * x + y) else None
      | (None, Some y) \<Rightarrow> if a = CHR '' '' \<and> 1 \<le> y then Some y else None
      | _ \<Rightarrow> None)"
| "field_d [a] = (case digit a of Some x \<Rightarrow> if 1 \<le> x then Some x else None | None \<Rightarrow> None)"
| "field_d _ = None"

fun field_Y :: "string \<Rightarrow> nat option" where
  "field_Y [a, b, c, d] =
     (case (digit a, digit b, digit c, digit d) of
        (Some x, Some y, Some z, Some u) \<Rightarrow> Some (1000 * x + 100 * y + 10 * z + u)
      | _ \<Rightarrow> None)"
| "field_Y _ = None"

text \<open>The text up to the first \<open>/\<close>, and the text after it.\<close>

fun until_slash :: "string \<Rightarrow> (string \<times> string) option" where
  "until_slash [] = None"
| "until_slash (c # cs) =
     (if c = CHR ''/'' then Some ([], cs)
      else case until_slash cs of None \<Rightarrow> None | Some (f, r) \<Rightarrow> Some (c # f, r))"

definition match_fields :: "string \<Rightarrow> (string \<times> string \<times> string) option" where
  "match_fields s =
     (case until_slash s of
        None \<Rightarrow> None
      | Some (f1, r1) \<Rightarrow>
          (case until_slash r1 of
             None \<Rightarrow> None
           | Some (f2, r2) \<Rightarrow> Some (f1, f2, r2)))"

text \<open>
  The date is built when the day exists in the month and the date lies in the range
  of \<^verbatim>\<open>datetime64[ns]\<close>, 1677-09-22 to 2262-04-11, which pandas 2 enforces on a parsed
  text. The properties that assert an error speak of texts that are no calendar date at
  all (\<open>unparseable\<close> below), and those that assert a result of texts inside the range.
\<close>

definition leap_year :: "nat \<Rightarrow> bool" where
  "leap_year y \<longleftrightarrow> y mod 4 = 0 \<and> (y mod 100 \<noteq> 0 \<or> y mod 400 = 0)"

definition days_in_month :: "nat \<Rightarrow> nat \<Rightarrow> nat" where
  "days_in_month y m =
     (if m = 2 then (if leap_year y then 29 else 28)
      else if m = 4 \<or> m = 6 \<or> m = 9 \<or> m = 11 then 30
      else 31)"

fun date_less :: "date \<Rightarrow> date \<Rightarrow> bool" where
  "date_less (y1, m1, d1) (y2, m2, d2) \<longleftrightarrow>
     y1 < y2 \<or> (y1 = y2 \<and> (m1 < m2 \<or> (m1 = m2 \<and> d1 < d2)))"

definition valid_date :: "date \<Rightarrow> bool" where
  "valid_date dt \<longleftrightarrow>
     (case dt of (y, m, d) \<Rightarrow> 1 \<le> m \<and> m \<le> 12 \<and> 1 \<le> d \<and> d \<le> days_in_month y m)
     \<and> \<not> date_less dt (1677, 9, 22) \<and> \<not> date_less (2262, 4, 11) dt"

definition make_date :: "nat option \<Rightarrow> nat option \<Rightarrow> nat option \<Rightarrow> date option" where
  "make_date yo mo dd =
     (case (yo, mo, dd) of
        (Some y, Some m, Some d) \<Rightarrow> if valid_date (y, m, d) then Some (y, m, d) else None
      | _ \<Rightarrow> None)"

text \<open>
  The two formats of the script: \<^verbatim>\<open>'%m/%d/%Y'\<close>, which \<^verbatim>\<open>convert_date_format\<close> reads,
  and \<^verbatim>\<open>'%d/%m/%Y'\<close>, which it writes and the plotting functions read back.
\<close>

datatype date_format = MonthDayYear | DayMonthYear

fun strptime :: "date_format \<Rightarrow> string \<Rightarrow> date option" where
  "strptime MonthDayYear s =
     (case match_fields s of
        None \<Rightarrow> None
      | Some (f1, f2, f3) \<Rightarrow> make_date (field_Y f3) (field_m f1) (field_d f2))"
| "strptime DayMonthYear s =
     (case match_fields s of
        None \<Rightarrow> None
      | Some (f1, f2, f3) \<Rightarrow> make_date (field_Y f3) (field_m f2) (field_d f1))"

text \<open>\<^verbatim>\<open>strftime('%d/%m/%Y')\<close>: day and month on two digits, year on four.\<close>

definition pad2 :: "nat \<Rightarrow> string" where
  "pad2 n = [digit_char (n div 10 mod 10), digit_char (n mod 10)]"

definition pad4 :: "nat \<Rightarrow> string" where
  "pad4 n = [digit_char (n div 1000 mod 10), digit_char (n div 100 mod 10),
             digit_char (n div 10 mod 10), digit_char (n mod 10)]"

fun strftime_dmY :: "date \<Rightarrow> string" where
  "strftime_dmY (y, m, d) = pad2 d @ ''/'' @ pad2 m @ ''/'' @ pad4 y"

subsection \<open>Date conversion\<close>

text \<open>
  \<^verbatim>\<open>pd.to_datetime\<close> walks down the column. A missing cell, an empty text and the
  spellings of a missing date become the missing date \<^verbatim>\<open>NaT\<close>; any other text is parsed,
  and a text that fails raises \<^verbatim>\<open>ValueError\<close> for the whole column: no column is
  returned.
\<close>

definition nat_strings :: "string list" where
  "nat_strings = [''NaT'', ''nat'', ''NAT'', ''nan'', ''NaN'', ''NAN'']"

fun to_datetime :: "string option list \<Rightarrow> pd_error + date option list" where
  "to_datetime [] = Inr []"
| "to_datetime (None # cs) =
     (case to_datetime cs of Inl e \<Rightarrow> Inl e | Inr ds \<Rightarrow> Inr (None # ds))"
| "to_datetime (Some s # cs) =
     (if s = [] \<or> s \<in> set nat_strings
      then (case to_datetime cs of Inl e \<Rightarrow> Inl e | Inr ds \<Rightarrow> Inr (None # ds))
      else (case strptime MonthDayYear s of
              None \<Rightarrow> Inl DateValueError
            | Some d \<Rightarrow>
                (case to_datetime cs of
                   Inl e \<Rightarrow> Inl e
                 | Inr ds \<Rightarrow> Inr (Some d # ds))))"

text \<open>
  \<^verbatim>\<open>df_copy[date_column] = pd.to_datetime(df_copy[date_column], format='%m/%d/%Y')
       .dt.strftime('%d/%m/%Y')\<close>
  with \<^verbatim>\<open>date_column = 'Week of'\<close>; a missing date stays a missing cell.
\<close>

definition convert_date_format :: "dataframe \<Rightarrow> pd_error + dataframe" where
  "convert_date_format df =
     (case to_datetime (week_of df) of
        Inl e \<Rightarrow> Inl e
      | Inr ds \<Rightarrow> Inr (df\<lparr>week_of := map (map_option strftime_dmY) ds\<rparr>))"

text \<open>\<^verbatim>\<open>df.iloc[::-1].reset_index(drop=True)\<close>: the rows in reverse order.\<close>

definition reverse_rows :: "dataframe \<Rightarrow> dataframe" where
  "reverse_rows df =
     df\<lparr>week_of := rev (week_of df),
        spot_price := rev (spot_price df),
        ln_returns := map_option rev (ln_returns df),
        rolling_volatility := map_option rev (rolling_volatility df)\<rparr>"

text \<open>
  The first steps of \<^verbatim>\<open>main\<close> on the frame that was read: the reversal, then the
  date conversion.
\<close>

definition main_normalize :: "dataframe \<Rightarrow> pd_error + dataframe" where
  "main_normalize df = convert_date_format (reverse_rows df)"

text \<open>The dates of a frame as the plotting functions read them, format \<^verbatim>\<open>'%d/%m/%Y'\<close>.\<close>

definition plotted_dates :: "dataframe \<Rightarrow> date option list" where
  "plotted_dates df = map (\<lambda>c. case c of None \<Rightarrow> None | Some s \<Rightarrow> strptime DayMonthYear s) (week_of df)"

text \<open>
  A column of dates is strictly increasing (strictly decreasing) when no date is missing
  and every date is before (after) the dates of the rows below it.
\<close>

definition strictly_increasing :: "date option list \<Rightarrow> bool" where
  "strictly_increasing ds =
     (case those ds of None \<Rightarrow> False | Some xs \<Rightarrow> sorted_wrt date_less xs)"

definition strictly_decreasing :: "date option list \<Rightarrow> bool" where
  "strictly_decreasing ds =
     (case those ds of None \<Rightarrow> False | Some xs \<Rightarrow> sorted_wrt (\<lambda>a b. date_less b a) xs)"

text \<open>
  The date a cell of the raw column stands for, if any; and the cells on which
  \<open>to_datetime\<close> raises: a text that is not empty, is not a spelling of a missing date
  and does not parse under \<^verbatim>\<open>'%m/%d/%Y'\<close>.
\<close>

fun cell_date :: "string option \<Rightarrow> date option" where
  "cell_date None = None"
| "cell_date (Some s) =
     (if s = [] \<or> s \<in> set nat_strings then None else strptime MonthDayYear s)"

fun malformed :: "string option \<Rightarrow> bool" where
  "malformed None = False"
| "malformed (Some s) \<longleftrightarrow> s \<noteq> [] \<and> s \<notin> set nat_strings \<and> strptime MonthDayYear s = None"


subsection \<open>Frames as objects\<close>

text \<open>
  Every function of the script starts with \<^verbatim>\<open>df_copy = df.copy()\<close>, assigns a column of
  \<^verbatim>\<open>df_copy\<close> and returns \<^verbatim>\<open>df_copy\<close>. The heap is the list of the frames that exist, a
  reference is a position in it; \<^verbatim>\<open>copy\<close> (a deep copy) allocates a frame, and the column
  assignment writes to the frame the reference names.
\<close>

type_synonym heap = "dataframe list"

definition df_copy :: "heap \<Rightarrow> nat \<Rightarrow> nat \<times> heap" where
  "df_copy h a = (length h, h @ [h ! a])"

definition calculate_ln_returns_obj :: "heap \<Rightarrow> nat \<Rightarrow> nat \<times> heap" where
  "calculate_ln_returns_obj h a =
     (case df_copy h a of (c, h1) \<Rightarrow> (c, h1[c := calculate_ln_returns (h1 ! c)]))"

definition calculate_rolling_volatility_obj :: "heap \<Rightarrow> nat \<Rightarrow> int \<Rightarrow> (pd_error + nat) \<times> heap" where
  "calculate_rolling_volatility_obj h a window =
     (case df_copy h a of (c, h1) \<Rightarrow>
        (case calculate_rolling_volatility (h1 ! c) window of
           Inl e \<Rightarrow> (Inl e, h1)
         | Inr df' \<Rightarrow> (Inr c, h1[c := df'])))"

definition convert_date_format_obj :: "heap \<Rightarrow> nat \<Rightarrow> (pd_error + nat) \<times> heap" where
  "convert_date_format_obj h a =
     (case df_copy h a of (c, h1) \<Rightarrow>
        (case convert_date_format (h1 ! c) of
           Inl e \<Rightarrow> (Inl e, h1)
         | Inr df' \<Rightarrow> (Inr c, h1[c := df'])))"

subsection \<open>Example frames\<close>

definition three_weeks :: dataframe where
  "three_weeks =
     \<lparr>week_of = [Some ''01/01/2020'', Some ''08/01/2020'', Some ''15/01/2020''],
      spot_price = [Fin 2, Fin 4, Fin 2],
      ln_returns = None,
      rolling_volatility = None\<rparr>"

definition three_returns :: dataframe where
  "three_returns =
     \<lparr>week_of = [Some ''01/01/2020'', Some ''08/01/2020'', Some ''15/01/2020''],
      spot_price = [Fin 1, Fin 2, Fin 1],
      ln_returns = Some [NaN, Fin 1, Fin 3],
      rolling_volatility = None\<rparr>"

definition zero_price :: dataframe where
  "zero_price =
     \<lparr>week_of = [Some ''01/01/2020'', Some ''08/01/2020'', Some ''15/01/2020''],
      spot_price = [Fin 1, Fin 0, Fin 1],
      ln_returns = None,
      rolling_volatility = None\<rparr>"

definition negative_prices :: dataframe where
  "negative_prices =
     \<lparr>week_of = [Some ''01/01/2020'', Some ''08/01/2020''],
      spot_price = [Fin (- 2), Fin (- 4)],
      ln_returns = None,
      rolling_volatility = None\<rparr>"

definition mixed_prices :: dataframe where
  "mixed_prices =
     \<lparr>week_of = [Some ''01/01/2020'', Some ''08/01/2020'', Some ''15/01/2020'',
                 Some ''22/01/2020'', Some ''29/01/2020'', Some ''05/02/2020'',
                 Some ''12/02/2020''],
      spot_price = [NaN, Fin 1, Fin 0, Fin 1, Fin (- 2), Fin (- 4), Fin 3],
      ln_returns = None,
      rolling_volatility = None\<rparr>"



definition repeated_dates :: dataframe where
  "repeated_dates =
     \<lparr>week_of = [Some ''01/08/2020'', Some ''01/08/2020'', Some ''01/15/2020''],
      spot_price = [Fin 2, Fin 3, Fin 4],
      ln_returns = None,
      rolling_volatility = None\<rparr>"

definition newest_first :: dataframe where
  "newest_first =
     \<lparr>week_of = [Some ''02/05/2020'', Some ''01/29/2020'', Some ''12/25/2019''],
      spot_price = [Fin 2, Fin 3, Fin 4],
      ln_returns = None,
      rolling_volatility = None\<rparr>"

definition two_weeks_raw :: dataframe where
  "two_weeks_raw =
     \<lparr>week_of = [Some ''01/08/2020'', Some ''01/01/2020''],
      spot_price = [Fin 2, Fin 4],
      ln_returns = Some [NaN, Fin 1],
      rolling_volatility = None\<rparr>"



definition underflow_sign_change :: dataframe where
  "underflow_sign_change =
     \<lparr>week_of = [Some ''01/01/2020'', Some ''08/01/2020''],
      spot_price = [Fin (2 ^ 1000), Fin (- (1 / 2 ^ 1000))],
      ln_returns = None,
      rolling_volatility = None\<rparr>"

definition sign_changes :: dataframe where
  "sign_changes =
     \<lparr>week_of = [Some ''01/01/2020'', Some ''08/01/2020'', Some ''15/01/2020'',
                 Some ''22/01/2020''],
      spot_price = [Fin 2, Fin (- 4), Fin (2 ^ 1000), Fin (- (1 / 2 ^ 1000))],
      ln_returns = None,
      rolling_volatility = None\<rparr>"


section \<open>Properties\<close>

subsection \<open>Log returns\<close>

lemma fl_div_NaN_right: "fl_div a NaN = NaN"
  by (simp add: fl_div_def)

lemma length_shift1: "length (shift1 ps) = length ps"
  by (simp add: shift1_def)

lemma length_series_div: "length (series_div xs ys) = min (length xs) (length ys)"
  by (simp add: series_div_def)

lemma ln_returns_column:
  "ln_returns (calculate_ln_returns df) =
     Some (map np_log (series_div (spot_price df) (shift1 (spot_price df))))"
  by (simp add: calculate_ln_returns_def)

lemma length_returns: "length (map np_log (series_div ps (shift1 ps))) = length ps"
  by (simp add: length_series_div length_shift1)

lemma returns_nth:
  assumes "1 \<le> i" "i < length ps"
  shows "map np_log (series_div ps (shift1 ps)) ! i = np_log (fl_div (ps ! i) (ps ! (i - 1)))"
  using assms by (cases i) (simp_all add: series_div_def shift1_def)

lemma returns_0: "0 < length ps \<Longrightarrow> map np_log (series_div ps (shift1 ps)) ! 0 = NaN"
  by (cases ps) (simp_all add: series_div_def shift1_def fl_div_NaN_right)

lemma returns_undefined_0: "\<not> defined_at (map np_log (series_div ps (shift1 ps))) 0"
  using returns_0 [of ps] length_returns [of ps] unfolding defined_at_def by (cases ps) auto

lemma underflow_bound_small: "underflow_bound < 1 / 4"
  by (simp add: underflow_bound_def)

lemma overflow_bound_large: "4 < overflow_bound"
  by (simp add: overflow_bound_def)

lemma bounds_apart: "underflow_bound < overflow_bound"
  using underflow_bound_small overflow_bound_large by simp

lemma fl_div_Fin: "a \<noteq> 0 \<Longrightarrow> b \<noteq> 0 \<Longrightarrow> fl_div (Fin a) (Fin b) = round_float (a / b)"
  by (simp add: fl_div_def is_zero_def)

lemma np_log_round_float_pos:
  "0 < q \<Longrightarrow>
   np_log (round_float q) =
     (if overflow_bound \<le> q then PInf else if q \<le> underflow_bound then NInf else Fin (ln q))"
  by (simp add: round_float_def signed_inf_def signed_zero_def)

lemma np_log_round_float_neg:
  "q < 0 \<Longrightarrow> np_log (round_float q) = (if \<bar>q\<bar> \<le> underflow_bound then NInf else NaN)"
  using bounds_apart by (auto simp: round_float_def signed_inf_def signed_zero_def)




text \<open>
  C10, as amended. For every price column of length \<open>n\<close> the return column has length
  \<open>n\<close>, and at every row \<open>i \<ge> 1\<close> whose predecessor is a finite positive price and whose
  own price is finite and negative the return is NaN, unless the quotient underflows to
  minus zero: then the return is minus infinity, a defined value. The function is total,
  it returns a frame and raises nothing.
\<close>

theorem sign_change_return:
  "\<exists>rs. ln_returns (calculate_ln_returns df) = Some rs
     \<and> length rs = length (spot_price df)
     \<and> (\<forall>i a b. 1 \<le> i \<and> i < length (spot_price df)
            \<and> spot_price df ! (i - 1) = Fin b \<and> 0 < b \<and> spot_price df ! i = Fin a \<and> a < 0
          \<longrightarrow> (if \<bar>a / b\<bar> \<le> underflow_bound then rs ! i = NInf else rs ! i = NaN))"
proof -
  let ?ps = "spot_price df"
  define rs where "rs = map np_log (series_div ?ps (shift1 ?ps))"
  have col: "ln_returns (calculate_ln_returns df) = Some rs"
    unfolding rs_def by (rule ln_returns_column)
  have len: "length rs = length ?ps" unfolding rs_def by (rule length_returns)
  have row: "if \<bar>a / b\<bar> \<le> underflow_bound then rs ! i = NInf else rs ! i = NaN"
    if h: "1 \<le> i \<and> i < length ?ps \<and> ?ps ! (i - 1) = Fin b \<and> 0 < b \<and> ?ps ! i = Fin a \<and> a < 0"
    for i a b
  proof -
    have q: "a / b < 0" using h by (simp add: divide_neg_pos)
    have "rs ! i = np_log (fl_div (Fin a) (Fin b))"
      unfolding rs_def using returns_nth [of i ?ps] h by simp
    then have "rs ! i = (if \<bar>a / b\<bar> \<le> underflow_bound then NInf else NaN)"
      using h by (simp add: fl_div_Fin np_log_round_float_neg [OF q])
    then show ?thesis by simp
  qed
  show ?thesis using col len row by blast
qed

text \<open>
  The hypotheses of C10 at the frame \<open>sign_changes\<close>: the quotient of row 1 is -2, that
  of row 3 underflows.
\<close>

theorem sign_change_return_witness:
  "\<exists>rs. ln_returns (calculate_ln_returns sign_changes) = Some rs \<and> length rs = 4
     \<and> rs ! 1 = NaN \<and> rs ! 3 = NInf"
proof -
  let ?ps = "spot_price sign_changes"
  obtain rs where rs: "ln_returns (calculate_ln_returns sign_changes) = Some rs"
      "length rs = length ?ps"
    and row: "\<forall>i a b. 1 \<le> i \<and> i < length ?ps
            \<and> ?ps ! (i - 1) = Fin b \<and> 0 < b \<and> ?ps ! i = Fin a \<and> a < 0
          \<longrightarrow> (if \<bar>a / b\<bar> \<le> underflow_bound then rs ! i = NInf else rs ! i = NaN)"
    using sign_change_return [of sign_changes] by blast
  have ps: "?ps = [Fin 2, Fin (- 4), Fin (2 ^ 1000), Fin (- (1 / 2 ^ 1000))]"
    by (simp add: sign_changes_def)
  have small: "\<bar>- ((1::real) / 2 ^ 1000) / 2 ^ 1000\<bar> \<le> underflow_bound"
    by (simp add: underflow_bound_def)
  have not_small: "\<not> \<bar>(- 4::real) / 2\<bar> \<le> underflow_bound"
    using underflow_bound_small by simp
  have r1: "rs ! 1 = NaN"
    using row [rule_format, of 1 2 "- 4"] not_small by (simp add: ps)
  have r3: "rs ! 3 = NInf"
    using row [rule_format, of 3 "2 ^ 1000" "- (1 / 2 ^ 1000)"] small by (simp add: ps)
  have "length rs = 4" using rs(2) by (simp add: ps)
  with rs(1) r1 r3 show ?thesis by blast
qed

text \<open>
  C10 as stated fails at the frame \<open>underflow_sign_change\<close>, the prices \<open>2 ^ 1000\<close> and
  \<open>- 2 ^ - 1000\<close>: the quotient underflows to minus zero, whose logarithm is minus
  infinity, and the return of row 1 is defined.
\<close>

theorem quotient_underflow_counterexample:
  "calculate_ln_returns underflow_sign_change
     = underflow_sign_change\<lparr>ln_returns := Some [NaN, NInf]\<rparr>
   \<and> defined_at [NaN, NInf] 1"
proof -
  have "\<bar>- ((1::real) / 2 ^ 1000) / 2 ^ 1000\<bar> \<le> underflow_bound"
    by (simp add: underflow_bound_def)
  moreover have "\<not> overflow_bound \<le> \<bar>- ((1::real) / 2 ^ 1000) / 2 ^ 1000\<bar>"
    using calculation bounds_apart by linarith
  ultimately have "fl_div (Fin (- (1 / 2 ^ 1000))) (Fin (2 ^ 1000)) = NZero"
    by (simp add: fl_div_def is_zero_def round_float_def signed_zero_def)
  then show ?thesis
    by (simp add: calculate_ln_returns_def underflow_sign_change_def series_div_def shift1_def
        fl_div_NaN_right defined_at_def)
qed

subsection \<open>Rolling standard deviation\<close>

lemma length_window_at: "i < length xs \<Longrightarrow> length (window_at w i xs) = min w (i + 1)"
  by (auto simp: window_at_def Let_def)

lemma window_at_nth:
  "i < length xs \<Longrightarrow> k < min w (i + 1) \<Longrightarrow> window_at w i xs ! k = xs ! (i + 1 - w + k)"
  by (auto simp: window_at_def Let_def)

lemma window_at_map: "window_at w i (map f xs) = map f (window_at w i xs)"
  by (simp add: window_at_def Let_def take_map drop_map)

lemma observations_prep: "observations (prep_values ys) = observations ys"
  by (induction ys) (simp_all add: prep_values_def)

lemma window_at_prep: "window_at w i (prep_values xs) = prep_values (window_at w i xs)"
  by (simp add: prep_values_def window_at_map)

lemma length_observations_le: "length (observations ys) \<le> length ys"
  by (induction ys) (simp_all add: le_SucI)

lemma observations_full:
  "length (observations ys) = length ys \<longleftrightarrow> (\<forall>y \<in> set ys. is_finite y)"
proof (induction ys)
  case Nil
  show ?case by simp
next
  case (Cons y ys)
  have le: "length (observations ys) \<le> length ys" by (rule length_observations_le)
  show ?case
  proof (cases "is_finite y")
    case True
    with Cons show ?thesis by simp
  next
    case False
    with le show ?thesis by simp
  qed
qed

lemma roll_std_at_prep:
  "roll_std_at w (prep_values xs) i = roll_std_at w xs i"
  by (simp add: roll_std_at_def window_at_prep observations_prep)

lemma window_all_finite_iff:
  assumes "i < length xs"
  shows "(\<forall>y \<in> set (window_at w i xs). is_finite y) \<longleftrightarrow>
         (\<forall>j. i + 1 - w \<le> j \<and> j \<le> i \<and> j < i + 1 - w + w \<longrightarrow> is_finite (xs ! j))"
proof
  assume a: "\<forall>y \<in> set (window_at w i xs). is_finite y"
  show "\<forall>j. i + 1 - w \<le> j \<and> j \<le> i \<and> j < i + 1 - w + w \<longrightarrow> is_finite (xs ! j)"
  proof (intro allI impI)
    fix j assume j: "i + 1 - w \<le> j \<and> j \<le> i \<and> j < i + 1 - w + w"
    let ?k = "j - (i + 1 - w)"
    have k: "?k < min w (i + 1)" using j by auto
    then have "window_at w i xs ! ?k \<in> set (window_at w i xs)"
      using length_window_at [OF assms, of w] by (metis nth_mem)
    moreover have "window_at w i xs ! ?k = xs ! j"
      using window_at_nth [OF assms k] j by simp
    ultimately show "is_finite (xs ! j)" using a by auto
  qed
next
  assume a: "\<forall>j. i + 1 - w \<le> j \<and> j \<le> i \<and> j < i + 1 - w + w \<longrightarrow> is_finite (xs ! j)"
  show "\<forall>y \<in> set (window_at w i xs). is_finite y"
  proof
    fix y assume "y \<in> set (window_at w i xs)"
    then obtain k where k: "k < length (window_at w i xs)" "y = window_at w i xs ! k"
      by (metis in_set_conv_nth)
    then have k': "k < min w (i + 1)" using length_window_at [OF assms, of w] by simp
    then have "y = xs ! (i + 1 - w + k)" using window_at_nth [OF assms k'] k by simp
    moreover have "is_finite (xs ! (i + 1 - w + k))" using a k' by auto
    ultimately show "is_finite y" by simp
  qed
qed

lemma roll_std_at_defined_iff:
  assumes "i < length xs"
  shows "roll_std_at w xs i \<noteq> NaN \<longleftrightarrow>
         2 \<le> w \<and> w \<le> i + 1 \<and> (\<forall>y \<in> set (window_at w i xs). is_finite y)"
proof -
  let ?win = "window_at w i xs"
  let ?n = "length (observations ?win)"
  have len: "length ?win = min w (i + 1)" by (rule length_window_at [OF assms])
  have le: "?n \<le> length ?win" by (rule length_observations_le)
  have full: "?n = length ?win \<longleftrightarrow> (\<forall>y \<in> set ?win. is_finite y)" by (rule observations_full)
  have "roll_std_at w xs i \<noteq> NaN \<longleftrightarrow> max w 1 \<le> ?n \<and> 1 < ?n"
    by (simp add: roll_std_at_def Let_def)
  also have "\<dots> \<longleftrightarrow> 2 \<le> w \<and> w \<le> i + 1 \<and> ?n = length ?win"
    using le len by auto
  finally show ?thesis using full by simp
qed

lemma length_rolling_std: "rolling_std w xs = Inr v \<Longrightarrow> length v = length xs"
  by (auto simp: rolling_std_def split: if_splits)

lemma rolling_std_nth:
  "rolling_std w xs = Inr v \<Longrightarrow> i < length xs \<Longrightarrow> v ! i = roll_std_at (nat w) xs i"
  by (auto simp: rolling_std_def roll_std_at_prep split: if_splits)

lemma rolling_std_Inr: "0 \<le> w \<Longrightarrow> w < 2 ^ 63 \<Longrightarrow> \<exists>v. rolling_std w xs = Inr v"
  by (simp add: rolling_std_def)

lemma calculate_rolling_volatility_Inr:
  assumes "ln_returns df = Some rs" "rolling_std w rs = Inr v"
  shows "calculate_rolling_volatility df w = Inr (df\<lparr>rolling_volatility := Some v\<rparr>)"
  using assms by (simp add: calculate_rolling_volatility_def)

lemma rolling_std_window_not_finite:
  assumes "rolling_std w rs = Inr v" "i < length rs" "k \<le> i" "i < k + nat w" "\<not> is_finite (rs ! k)"
  shows "v ! i = NaN"
proof -
  have "\<not> (\<forall>j. i + 1 - nat w \<le> j \<and> j \<le> i \<and> j < i + 1 - nat w + nat w \<longrightarrow> is_finite (rs ! j))"
    using assms(3,4,5) by (intro notI) (auto dest!: spec [of _ k])
  then have "roll_std_at (nat w) rs i = NaN"
    using roll_std_at_defined_iff [OF assms(2), of "nat w"]
      window_all_finite_iff [OF assms(2), of "nat w"] by blast
  then show ?thesis using rolling_std_nth [OF assms(1,2)] by simp
qed



lemma zero_price_returns:
  "calculate_ln_returns zero_price = zero_price\<lparr>ln_returns := Some [NaN, NInf, PInf]\<rparr>"
  by (simp add: calculate_ln_returns_def zero_price_def series_div_def shift1_def
      fl_div_def is_zero_def signed_inf_def signed_zero_def)


text \<open>
  C4, as amended. For every return column, \<open>calculate_rolling_volatility\<close> with a
  negative window raises an error and yields no column; with window 0 or 1 it raises
  nothing and yields a column of the same length in which every row is undefined.
\<close>

theorem small_window_behaviour:
  assumes "ln_returns df = Some rs"
  shows "(w < 0 \<longrightarrow> calculate_rolling_volatility df w = Inl WindowError)
       \<and> (w = 0 \<or> w = 1 \<longrightarrow>
            (\<exists>df' v. calculate_rolling_volatility df w = Inr df'
               \<and> rolling_volatility df' = Some v
               \<and> length v = length rs
               \<and> (\<forall>i<length rs. \<not> defined_at v i)))"
proof (intro conjI impI)
  assume "w < 0"
  then show "calculate_rolling_volatility df w = Inl WindowError"
    using assms by (simp add: calculate_rolling_volatility_def rolling_std_def)
next
  assume w: "w = 0 \<or> w = 1"
  then obtain v where v: "rolling_std w rs = Inr v" using rolling_std_Inr [of w rs] by auto
  have "\<not> defined_at v i" if i: "i < length rs" for i
  proof -
    have "\<not> 2 \<le> nat w" using w by auto
    then have "roll_std_at (nat w) rs i = NaN"
      using roll_std_at_defined_iff [OF i, of "nat w"] by blast
    then show ?thesis using rolling_std_nth [OF v i] by (simp add: defined_at_def)
  qed
  then show "\<exists>df' v. calculate_rolling_volatility df w = Inr df'
               \<and> rolling_volatility df' = Some v
               \<and> length v = length rs
               \<and> (\<forall>i<length rs. \<not> defined_at v i)"
    using calculate_rolling_volatility_Inr [OF assms v] length_rolling_std [OF v] by auto
qed

text \<open>
  The hypotheses of C4 at the frame \<open>three_returns\<close>, windows -1 and 0.
\<close>

theorem small_window_behaviour_witness:
  "calculate_rolling_volatility three_returns (- 1) = Inl WindowError
   \<and> (\<exists>df' v. calculate_rolling_volatility three_returns 0 = Inr df'
               \<and> rolling_volatility df' = Some v \<and> length v = 3
               \<and> \<not> defined_at v 0 \<and> \<not> defined_at v 1 \<and> \<not> defined_at v 2)"
proof -
  have rs: "ln_returns three_returns = Some [NaN, Fin 1, Fin 3]"
    by (simp add: three_returns_def)
  show ?thesis
    using small_window_behaviour [OF rs, of "- 1"] small_window_behaviour [OF rs, of 0] by fastforce
qed

text \<open>
  C4 as stated fails at the frame \<open>three_returns\<close> and window 1: the result is a frame,
  not an error.
\<close>

theorem window_one_counterexample:
  "ln_returns three_returns = Some [NaN, Fin 1, Fin 3]
   \<and> calculate_rolling_volatility three_returns 1
       = Inr (three_returns\<lparr>rolling_volatility := Some [NaN, NaN, NaN]\<rparr>)"
  by (simp add: three_returns_def calculate_rolling_volatility_def rolling_std_def
      prep_values_def roll_std_at_def window_at_def Let_def upt_rec)

subsection \<open>Prices that are not positive\<close>

lemma np_log_fl_div_NaN: "a = NaN \<or> b = NaN \<Longrightarrow> np_log (fl_div a b) = NaN"
  by (auto simp: fl_div_def)

lemma np_log_fl_div_zero: "is_zero a \<or> is_zero b \<Longrightarrow> \<not> is_finite (np_log (fl_div a b))"
  by (cases a; cases b)
     (auto simp: fl_div_def is_zero_def signed_inf_def signed_zero_def Let_def split: if_splits)

lemma negative_prices_returns:
  "map_option (map is_finite) (ln_returns (calculate_ln_returns negative_prices))
     = Some [False, True]"
proof -
  have "underflow_bound < \<bar>(- 4::real) / - 2\<bar>" "\<bar>(- 4::real) / - 2\<bar> < overflow_bound"
    using underflow_bound_small overflow_bound_large by simp_all
  then have "fl_div (Fin (- 4)) (Fin (- 2)) = Fin 2"
    by (simp add: fl_div_def is_zero_def round_float_def)
  then show ?thesis
    by (simp add: calculate_ln_returns_def negative_prices_def series_div_def shift1_def
        fl_div_NaN_right)
qed

text \<open>
  C3, as amended. For every price column of length \<open>n\<close> the return column has length
  \<open>n\<close> and the computation does not raise. At every row \<open>i \<ge> 1\<close> the return is undefined
  if the price or its predecessor is undefined; if the predecessor is negative and the
  price positive it is undefined, or minus infinity when the quotient underflows to
  minus zero; if both are negative it is defined, and finite unless the quotient
  overflows or underflows; if the price or its predecessor is a zero it is not finite (an
  infinity or undefined). For every window \<open>w\<close> with \<open>0 \<le> w < 2 ^ 63\<close> the volatility
  column has length \<open>n\<close> and is undefined at every row whose window overlaps a return that
  is not finite, so at every window overlapping the row of a zero price or the row after
  it.
\<close>

theorem nonpositive_price_returns:
  "\<exists>rs. ln_returns (calculate_ln_returns df) = Some rs
     \<and> length rs = length (spot_price df)
     \<and> (\<forall>i. 1 \<le> i \<and> i < length (spot_price df)
            \<and> (spot_price df ! (i - 1) = NaN \<or> spot_price df ! i = NaN)
          \<longrightarrow> rs ! i = NaN)
     \<and> (\<forall>i a b. 1 \<le> i \<and> i < length (spot_price df)
            \<and> spot_price df ! (i - 1) = Fin b \<and> b < 0 \<and> spot_price df ! i = Fin a \<and> 0 < a
          \<longrightarrow> (if \<bar>a / b\<bar> \<le> underflow_bound then rs ! i = NInf else rs ! i = NaN))
     \<and> (\<forall>i a b. 1 \<le> i \<and> i < length (spot_price df)
            \<and> spot_price df ! (i - 1) = Fin b \<and> b < 0 \<and> spot_price df ! i = Fin a \<and> a < 0
          \<longrightarrow> rs ! i \<noteq> NaN
              \<and> (underflow_bound < a / b \<and> a / b < overflow_bound \<longrightarrow> is_finite (rs ! i)))
     \<and> (\<forall>i. 1 \<le> i \<and> i < length (spot_price df)
            \<and> (is_zero (spot_price df ! (i - 1)) \<or> is_zero (spot_price df ! i))
          \<longrightarrow> \<not> is_finite (rs ! i))
     \<and> (\<forall>w. 0 \<le> w \<and> w < 2 ^ 63 \<longrightarrow>
          (\<exists>df' v. calculate_rolling_volatility (calculate_ln_returns df) w = Inr df'
             \<and> rolling_volatility df' = Some v
             \<and> length v = length (spot_price df)
             \<and> (\<forall>i k. i < length (spot_price df) \<and> k \<le> i \<and> i < k + nat w
                       \<and> \<not> is_finite (rs ! k)
                    \<longrightarrow> v ! i = NaN)))"
proof -
  let ?ps = "spot_price df"
  define rs where "rs = map np_log (series_div ?ps (shift1 ?ps))"
  have col: "ln_returns (calculate_ln_returns df) = Some rs"
    unfolding rs_def by (rule ln_returns_column)
  have len: "length rs = length ?ps" unfolding rs_def by (rule length_returns)
  have nth: "rs ! i = np_log (fl_div (?ps ! i) (?ps ! (i - 1)))"
    if "1 \<le> i" "i < length ?ps" for i
    unfolding rs_def using that by (rule returns_nth)
  have p1: "\<forall>i. 1 \<le> i \<and> i < length ?ps \<and> (?ps ! (i - 1) = NaN \<or> ?ps ! i = NaN)
              \<longrightarrow> rs ! i = NaN"
    using nth np_log_fl_div_NaN by metis
  have p2: "\<forall>i a b. 1 \<le> i \<and> i < length ?ps
            \<and> ?ps ! (i - 1) = Fin b \<and> b < 0 \<and> ?ps ! i = Fin a \<and> 0 < a
          \<longrightarrow> (if \<bar>a / b\<bar> \<le> underflow_bound then rs ! i = NInf else rs ! i = NaN)"
  proof (intro allI impI)
    fix i a b
    assume h: "1 \<le> i \<and> i < length ?ps \<and> ?ps ! (i - 1) = Fin b \<and> b < 0 \<and> ?ps ! i = Fin a \<and> 0 < a"
    have q: "a / b < 0" using h by (simp add: divide_pos_neg)
    have "rs ! i = np_log (fl_div (Fin a) (Fin b))" using nth [of i] h by simp
    then have "rs ! i = (if \<bar>a / b\<bar> \<le> underflow_bound then NInf else NaN)"
      using h by (simp add: fl_div_Fin np_log_round_float_neg [OF q])
    then show "if \<bar>a / b\<bar> \<le> underflow_bound then rs ! i = NInf else rs ! i = NaN" by simp
  qed
  have p3: "\<forall>i a b. 1 \<le> i \<and> i < length ?ps
            \<and> ?ps ! (i - 1) = Fin b \<and> b < 0 \<and> ?ps ! i = Fin a \<and> a < 0
          \<longrightarrow> rs ! i \<noteq> NaN
              \<and> (underflow_bound < a / b \<and> a / b < overflow_bound \<longrightarrow> is_finite (rs ! i))"
  proof (intro allI impI)
    fix i a b
    assume h: "1 \<le> i \<and> i < length ?ps \<and> ?ps ! (i - 1) = Fin b \<and> b < 0 \<and> ?ps ! i = Fin a \<and> a < 0"
    have q: "0 < a / b" using h by (simp add: divide_neg_neg)
    have "rs ! i = np_log (fl_div (Fin a) (Fin b))" using nth [of i] h by simp
    then have v: "rs ! i =
        (if overflow_bound \<le> a / b then PInf
         else if a / b \<le> underflow_bound then NInf else Fin (ln (a / b)))"
      using h by (simp add: fl_div_Fin np_log_round_float_pos [OF q])
    show "rs ! i \<noteq> NaN
          \<and> (underflow_bound < a / b \<and> a / b < overflow_bound \<longrightarrow> is_finite (rs ! i))"
      unfolding v by auto
  qed
  have p4: "\<forall>i. 1 \<le> i \<and> i < length ?ps
             \<and> (is_zero (?ps ! (i - 1)) \<or> is_zero (?ps ! i))
              \<longrightarrow> \<not> is_finite (rs ! i)"
    using nth np_log_fl_div_zero by metis
  have p5: "\<forall>w. 0 \<le> w \<and> w < 2 ^ 63 \<longrightarrow>
          (\<exists>df' v. calculate_rolling_volatility (calculate_ln_returns df) w = Inr df'
             \<and> rolling_volatility df' = Some v
             \<and> length v = length ?ps
             \<and> (\<forall>i k. i < length ?ps \<and> k \<le> i \<and> i < k + nat w \<and> \<not> is_finite (rs ! k)
                    \<longrightarrow> v ! i = NaN))"
  proof (intro allI impI)
    fix w :: int assume w: "0 \<le> w \<and> w < 2 ^ 63"
    then obtain v where v: "rolling_std w rs = Inr v" using rolling_std_Inr [of w rs] by blast
    have lv: "length v = length ?ps" using length_rolling_std [OF v] len by simp
    have "\<forall>i k. i < length ?ps \<and> k \<le> i \<and> i < k + nat w \<and> \<not> is_finite (rs ! k)
                    \<longrightarrow> v ! i = NaN"
      using rolling_std_window_not_finite [OF v] len by metis
    then show "\<exists>df' v. calculate_rolling_volatility (calculate_ln_returns df) w = Inr df'
             \<and> rolling_volatility df' = Some v
             \<and> length v = length ?ps
             \<and> (\<forall>i k. i < length ?ps \<and> k \<le> i \<and> i < k + nat w \<and> \<not> is_finite (rs ! k)
                    \<longrightarrow> v ! i = NaN)"
      using calculate_rolling_volatility_Inr [OF col v] lv by auto
  qed
  show ?thesis using col len p1 p2 p3 p4 p5 by blast
qed

text \<open>
  The hypotheses of C3 at the frame \<open>mixed_prices\<close>, prices NaN, 1, 0, 1, -2, -4, 3: one
  row for each case.
\<close>

theorem nonpositive_price_returns_witness:
  "\<exists>rs. ln_returns (calculate_ln_returns mixed_prices) = Some rs
     \<and> length rs = 7
     \<and> rs ! 1 = NaN
     \<and> \<not> is_finite (rs ! 2) \<and> \<not> is_finite (rs ! 3)
     \<and> is_finite (rs ! 5)
     \<and> rs ! 6 = NaN
     \<and> (\<exists>df' v. calculate_rolling_volatility (calculate_ln_returns mixed_prices) 2 = Inr df'
           \<and> rolling_volatility df' = Some v \<and> length v = 7
           \<and> v ! 2 = NaN \<and> v ! 3 = NaN \<and> v ! 4 = NaN)"
proof -
  let ?ps = "spot_price mixed_prices"
  obtain rs where rs: "ln_returns (calculate_ln_returns mixed_prices) = Some rs"
    and len: "length rs = length ?ps"
    and p1: "\<forall>i. 1 \<le> i \<and> i < length ?ps \<and> (?ps ! (i - 1) = NaN \<or> ?ps ! i = NaN)
          \<longrightarrow> rs ! i = NaN"
    and p2: "\<forall>i a b. 1 \<le> i \<and> i < length ?ps
            \<and> ?ps ! (i - 1) = Fin b \<and> b < 0 \<and> ?ps ! i = Fin a \<and> 0 < a
          \<longrightarrow> (if \<bar>a / b\<bar> \<le> underflow_bound then rs ! i = NInf else rs ! i = NaN)"
    and p3: "\<forall>i a b. 1 \<le> i \<and> i < length ?ps
            \<and> ?ps ! (i - 1) = Fin b \<and> b < 0 \<and> ?ps ! i = Fin a \<and> a < 0
          \<longrightarrow> rs ! i \<noteq> NaN
              \<and> (underflow_bound < a / b \<and> a / b < overflow_bound \<longrightarrow> is_finite (rs ! i))"
    and p4: "\<forall>i. 1 \<le> i \<and> i < length ?ps
            \<and> (is_zero (?ps ! (i - 1)) \<or> is_zero (?ps ! i))
          \<longrightarrow> \<not> is_finite (rs ! i)"
    and p5: "\<forall>w. 0 \<le> w \<and> w < 2 ^ 63 \<longrightarrow>
          (\<exists>df' v. calculate_rolling_volatility (calculate_ln_returns mixed_prices) w = Inr df'
             \<and> rolling_volatility df' = Some v
             \<and> length v = length ?ps
             \<and> (\<forall>i k. i < length ?ps \<and> k \<le> i \<and> i < k + nat w \<and> \<not> is_finite (rs ! k)
                    \<longrightarrow> v ! i = NaN))"
    using nonpositive_price_returns [of mixed_prices] by blast
  have ps: "?ps = [NaN, Fin 1, Fin 0, Fin 1, Fin (- 2), Fin (- 4), Fin 3]"
    by (simp add: mixed_prices_def)
  have l7: "length rs = 7" using len by (simp add: ps)
  have r1: "rs ! 1 = NaN" using p1 [rule_format, of 1] by (simp add: ps)
  have r2: "\<not> is_finite (rs ! 2)" using p4 [rule_format, of 2] by (simp add: ps is_zero_def)
  have r3: "\<not> is_finite (rs ! 3)" using p4 [rule_format, of 3] by (simp add: ps is_zero_def)
  have mid: "underflow_bound < (- 4::real) / - 2" "(- 4::real) / - 2 < overflow_bound"
    using underflow_bound_small overflow_bound_large by simp_all
  have r5: "is_finite (rs ! 5)"
    using p3 [rule_format, of 5 "- 2" "- 4"] mid by (simp add: ps)
  have big: "\<not> \<bar>(3::real) / - 4\<bar> \<le> underflow_bound"
    using underflow_bound_small by simp
  have r6: "rs ! 6 = NaN"
    using p2 [rule_format, of 6 "- 4" 3] big by (simp add: ps)
  obtain df' v where v: "calculate_rolling_volatility (calculate_ln_returns mixed_prices) 2 = Inr df'"
      "rolling_volatility df' = Some v" "length v = length ?ps"
      "\<forall>i k. i < length ?ps \<and> k \<le> i \<and> i < k + nat 2 \<and> \<not> is_finite (rs ! k)
                    \<longrightarrow> v ! i = NaN"
    using p5 [rule_format, of 2] by auto
  have v2: "v ! 2 = NaN" using v(4) [rule_format, of 2 2] r2 by (simp add: ps)
  have v3: "v ! 3 = NaN" using v(4) [rule_format, of 3 3] r3 by (simp add: ps)
  have v4: "v ! 4 = NaN" using v(4) [rule_format, of 4 3] r3 by (simp add: ps)
  have lv: "length v = 7" using v(3) by (simp add: ps)
  show ?thesis using rs l7 r1 r2 r3 r5 r6 v(1,2) lv v2 v3 v4 by blast
qed

text \<open>
  C3 as stated fails at the frame \<open>zero_price\<close>, prices 1, 0, 1: the returns of row 1
  (the zero price) and of row 2 (its successor) are infinities, which are defined
  values; and at the frame \<open>negative_prices\<close>, prices -2 and -4, where the predecessor is
  not positive and the return of row 1 is a finite number.
\<close>

theorem zero_price_return_counterexample:
  "spot_price zero_price = [Fin 1, Fin 0, Fin 1]
   \<and> calculate_ln_returns zero_price = zero_price\<lparr>ln_returns := Some [NaN, NInf, PInf]\<rparr>
   \<and> defined_at [NaN, NInf, PInf] 1 \<and> defined_at [NaN, NInf, PInf] 2
   \<and> spot_price negative_prices = [Fin (- 2), Fin (- 4)]
   \<and> map_option (map is_finite) (ln_returns (calculate_ln_returns negative_prices))
       = Some [False, True]"
  unfolding zero_price_returns negative_prices_returns
  by (simp add: zero_price_def negative_prices_def defined_at_def)

subsection \<open>The window as long as the series\<close>

lemma positive_quotient_defined:
  "0 < a \<Longrightarrow> 0 < b \<Longrightarrow> np_log (fl_div (Fin a) (Fin b)) \<noteq> NaN"
proof -
  assume h: "0 < a" "0 < b"
  then have q: "0 < a / b" by simp
  show ?thesis using h by (simp add: fl_div_Fin np_log_round_float_pos [OF q])
qed

lemma returns_defined_of_positive:
  assumes "\<forall>p \<in> set ps. \<exists>a. p = Fin a \<and> 0 < a" "1 \<le> i" "i < length ps"
  shows "map np_log (series_div ps (shift1 ps)) ! i \<noteq> NaN"
proof -
  obtain a where a: "ps ! i = Fin a" "0 < a" using assms(1,3) by (metis nth_mem)
  have "i - 1 < length ps" using assms(3) by simp
  then obtain b where b: "ps ! (i - 1) = Fin b" "0 < b" using assms(1) by (metis nth_mem)
  show ?thesis
    using returns_nth [OF assms(2,3)] a b positive_quotient_defined [of a b] by simp
qed

text \<open>
  C5, as amended. For every price column of finite positive prices (of fewer than
  \<open>2 ^ 63\<close> rows, as every column in memory has), the return column has row 0 as its only
  undefined row, and \<open>calculate_rolling_volatility\<close> with the window equal to the length
  \<open>n\<close> yields a column of length \<open>n\<close> with no defined value at all, the last row included:
  the only full window holds the undefined return of row 0.
\<close>

theorem full_window_all_undefined:
  assumes "\<forall>p \<in> set (spot_price df). \<exists>a. p = Fin a \<and> 0 < a"
    and "int (length (spot_price df)) < 2 ^ 63"
  shows "\<exists>rs. ln_returns (calculate_ln_returns df) = Some rs
     \<and> length rs = length (spot_price df)
     \<and> (\<forall>i<length rs. defined_at rs i \<longleftrightarrow> 1 \<le> i)
     \<and> (\<exists>df' v. calculate_rolling_volatility (calculate_ln_returns df) (int (length rs)) = Inr df'
           \<and> rolling_volatility df' = Some v
           \<and> length v = length rs
           \<and> (\<forall>i<length rs. \<not> defined_at v i))"
proof -
  let ?ps = "spot_price df"
  define rs where "rs = map np_log (series_div ?ps (shift1 ?ps))"
  define n where "n = length rs"
  have col: "ln_returns (calculate_ln_returns df) = Some rs"
    unfolding rs_def by (rule ln_returns_column)
  have len: "n = length ?ps" unfolding n_def rs_def by (rule length_returns)
  have def: "rs ! i \<noteq> NaN" if "1 \<le> i" "i < n" for i
    unfolding rs_def using returns_defined_of_positive [OF assms(1) that(1)] that(2) len by simp
  have r0: "\<not> defined_at rs 0" unfolding rs_def by (rule returns_undefined_0)
  have nan0: "\<not> is_finite (rs ! 0)" if "0 < n"
    using r0 that by (auto simp: defined_at_def n_def)
  have a: "\<forall>i<n. defined_at rs i \<longleftrightarrow> 1 \<le> i"
  proof (intro allI impI)
    fix i assume i: "i < n"
    show "defined_at rs i \<longleftrightarrow> 1 \<le> i"
    proof (cases "i = 0")
      case True
      then show ?thesis using r0 by simp
    next
      case False
      then have "rs ! i \<noteq> NaN" using def [of i] i by simp
      then show ?thesis using False i by (simp add: defined_at_def n_def)
    qed
  qed
  have b: "\<exists>df' v. calculate_rolling_volatility (calculate_ln_returns df) (int n) = Inr df'
           \<and> rolling_volatility df' = Some v \<and> length v = n \<and> (\<forall>i<n. \<not> defined_at v i)"
  proof -
    have "int n < 2 ^ 63" using assms(2) len by simp
    then obtain v where v: "rolling_std (int n) rs = Inr v"
      using rolling_std_Inr [of "int n" rs] by auto
    have "\<not> defined_at v i" if i: "i < n" for i
    proof -
      have "0 < n" using i by simp
      then have "\<not> is_finite (rs ! 0)" by (rule nan0)
      moreover have "i < length rs" "0 \<le> i" "i < 0 + nat (int n)"
        using i by (simp_all add: n_def)
      ultimately have "i < length rs" "0 \<le> i" "i < 0 + nat (int n)" "\<not> is_finite (rs ! 0)"
        by blast+
      then have "v ! i = NaN" by (rule rolling_std_window_not_finite [OF v])
      then show ?thesis by (simp add: defined_at_def)
    qed
    then show ?thesis
      using calculate_rolling_volatility_Inr [OF col v] length_rolling_std [OF v]
      by (auto simp: n_def)
  qed
  show ?thesis using col len a b unfolding n_def by auto
qed

text \<open>
  The hypotheses of C5 at the frame \<open>three_weeks\<close>, prices 2, 4, 2.
\<close>

theorem full_window_all_undefined_witness:
  "\<exists>rs. ln_returns (calculate_ln_returns three_weeks) = Some rs
     \<and> length rs = 3
     \<and> \<not> defined_at rs 0 \<and> defined_at rs 1 \<and> defined_at rs 2
     \<and> (\<exists>df' v. calculate_rolling_volatility (calculate_ln_returns three_weeks) 3 = Inr df'
           \<and> rolling_volatility df' = Some v \<and> length v = 3
           \<and> \<not> defined_at v 0 \<and> \<not> defined_at v 1 \<and> \<not> defined_at v 2)"
proof -
  have pos: "\<forall>p \<in> set (spot_price three_weeks). \<exists>a. p = Fin a \<and> 0 < a"
    by (simp add: three_weeks_def)
  have n: "length (spot_price three_weeks) = 3" by (simp add: three_weeks_def)
  have small: "int (length (spot_price three_weeks)) < 2 ^ 63" unfolding n by simp
  obtain rs where rs: "ln_returns (calculate_ln_returns three_weeks) = Some rs"
    and len: "length rs = length (spot_price three_weeks)"
    and a: "\<forall>i<length rs. defined_at rs i \<longleftrightarrow> 1 \<le> i"
    and b: "\<exists>df' v. calculate_rolling_volatility (calculate_ln_returns three_weeks)
                     (int (length rs)) = Inr df'
           \<and> rolling_volatility df' = Some v
           \<and> length v = length rs
           \<and> (\<forall>i<length rs. \<not> defined_at v i)"
    using full_window_all_undefined [OF pos small] by blast
  have l3: "length rs = 3" using len n by simp
  have a': "\<not> defined_at rs 0 \<and> defined_at rs 1 \<and> defined_at rs 2"
    using a unfolding l3 by simp
  have b': "\<exists>df' v. calculate_rolling_volatility (calculate_ln_returns three_weeks) 3 = Inr df'
           \<and> rolling_volatility df' = Some v \<and> length v = 3
           \<and> \<not> defined_at v 0 \<and> \<not> defined_at v 1 \<and> \<not> defined_at v 2"
    using b unfolding l3 by fastforce
  show ?thesis using rs l3 a' b' by blast
qed

text \<open>
  C5 as stated fails at the frame \<open>three_weeks\<close> with window 3: no row of the volatility
  is defined, the last row included.
\<close>

theorem full_window_counterexample:
  "length (spot_price three_weeks) = 3
   \<and> map_sum id rolling_volatility
       (calculate_rolling_volatility (calculate_ln_returns three_weeks) 3)
       = Inr (Some [NaN, NaN, NaN])
   \<and> \<not> defined_at [NaN, NaN, NaN] 2"
proof -
  obtain x y where r: "calculate_ln_returns three_weeks = three_weeks\<lparr>ln_returns := Some [NaN, x, y]\<rparr>"
    by (simp add: calculate_ln_returns_def three_weeks_def series_div_def shift1_def
        fl_div_NaN_right)
  have v: "rolling_std 3 [NaN, x, y] = Inr [NaN, NaN, NaN]"
    by (simp add: rolling_std_def prep_values_def roll_std_at_def window_at_def Let_def upt_rec)
  show ?thesis
    unfolding r
    by (simp add: calculate_rolling_volatility_def v defined_at_def three_weeks_def)
qed

subsection \<open>Reading and writing dates\<close>

lemma digit_digit_char: "k < 10 \<Longrightarrow> digit (digit_char k) = Some k"
proof -
  assume "k < 10"
  then have "k \<in> {0, 1, 2, 3, 4, 5, 6, 7, 8, 9}" by auto
  then show ?thesis
    by (auto simp: digit_def digit_char_def)
qed

lemma digit_char_not_slash: "k < 10 \<Longrightarrow> digit_char k \<noteq> CHR ''/''"
proof -
  assume "k < 10"
  then have "k \<in> {0, 1, 2, 3, 4, 5, 6, 7, 8, 9}" by auto
  then show ?thesis
    by (auto simp: digit_char_def)
qed

lemma until_slash_append:
  "CHR ''/'' \<notin> set f \<Longrightarrow> until_slash (f @ CHR ''/'' # r) = Some (f, r)"
  by (induction f) auto

lemma pad2_no_slash: "CHR ''/'' \<notin> set (pad2 n)"
  using digit_char_not_slash [of "n div 10 mod 10"] digit_char_not_slash [of "n mod 10"]
  by (auto simp: pad2_def)

lemma two_digits:
  fixes n :: nat
  assumes "n < 100"
  obtains x y where "n div 10 mod 10 = x" "n mod 10 = y" "n = 10 * x + y" "x < 10" "y < 10"
proof -
  have "n div 10 < 10" using assms by simp
  then have "n div 10 mod 10 = n div 10" by simp
  moreover have "n = 10 * (n div 10) + n mod 10" by simp
  ultimately show ?thesis using that [of "n div 10" "n mod 10"] \<open>n div 10 < 10\<close> by simp
qed

lemma field_d_pad2: "1 \<le> d \<Longrightarrow> d \<le> 31 \<Longrightarrow> field_d (pad2 d) = Some d"
proof -
  assume h: "1 \<le> d" "d \<le> 31"
  then have "d < 100" by simp
  then obtain x y where xy: "d div 10 mod 10 = x" "d mod 10 = y" "d = 10 * x + y" "x < 10" "y < 10"
    by (rule two_digits)
  have c: "(x = 3 \<and> y \<le> 1) \<or> (1 \<le> x \<and> x \<le> 2) \<or> (x = 0 \<and> 1 \<le> y)"
    using h xy(3,4,5) by linarith
  have "field_d [digit_char x, digit_char y] = Some (10 * x + y)"
    using c xy(4,5) by (simp add: digit_digit_char)
  then show ?thesis by (simp add: pad2_def xy)
qed

lemma field_m_pad2: "1 \<le> m \<Longrightarrow> m \<le> 12 \<Longrightarrow> field_m (pad2 m) = Some m"
proof -
  assume h: "1 \<le> m" "m \<le> 12"
  then have "m < 100" by simp
  then obtain x y where xy: "m div 10 mod 10 = x" "m mod 10 = y" "m = 10 * x + y" "x < 10" "y < 10"
    by (rule two_digits)
  have c: "(x = 1 \<and> y \<le> 2) \<or> (x = 0 \<and> 1 \<le> y)"
    using h xy(3,4,5) by linarith
  have "field_m [digit_char x, digit_char y] = Some (10 * x + y)"
    using c xy(4,5) by (simp add: digit_digit_char)
  then show ?thesis by (simp add: pad2_def xy)
qed

lemma field_Y_pad4: "y < 10000 \<Longrightarrow> field_Y (pad4 y) = Some y"
proof -
  assume h: "y < 10000"
  define a where "a = y div 10"
  define b where "b = a div 10"
  define c where "c = b div 10"
  have d100: "y div 100 = b" unfolding b_def a_def by (simp add: div_mult2_eq)
  have d1000: "y div 1000 = c" unfolding c_def b_def a_def by (simp add: div_mult2_eq)
  have c10: "c < 10" using h d1000 by (simp flip: d1000)
  have ya: "y = 10 * a + y mod 10" unfolding a_def by simp
  have ab: "a = 10 * b + a mod 10" unfolding b_def by simp
  have bc: "b = 10 * c + b mod 10" unfolding c_def by simp
  have sum: "1000 * c + 100 * (b mod 10) + 10 * (a mod 10) + y mod 10 = y"
    using ya ab bc by linarith
  have "field_Y [digit_char (c mod 10), digit_char (b mod 10), digit_char (a mod 10),
                 digit_char (y mod 10)] = Some (1000 * (c mod 10) + 100 * (b mod 10) + 10 * (a mod 10) + y mod 10)"
    by (simp add: digit_digit_char)
  moreover have "c mod 10 = c" using c10 by simp
  ultimately have "field_Y [digit_char c, digit_char (b mod 10), digit_char (a mod 10),
                 digit_char (y mod 10)] = Some y"
    using sum by simp
  then show ?thesis
    unfolding pad4_def d1000 d100 using c10 by (simp add: a_def)
qed

lemma valid_date_bounds:
  assumes "valid_date (y, m, d)"
  shows "1 \<le> m" "m \<le> 12" "1 \<le> d" "d \<le> 31" "y < 10000"
proof -
  show "1 \<le> m" "m \<le> 12" "1 \<le> d" using assms by (simp_all add: valid_date_def)
  have "d \<le> days_in_month y m" using assms by (simp add: valid_date_def)
  moreover have "days_in_month y m \<le> 31" by (simp add: days_in_month_def)
  ultimately show "d \<le> 31" by simp
  have "\<not> date_less (2262, 4, 11) (y, m, d)" using assms by (simp add: valid_date_def)
  then show "y < 10000" by auto
qed

lemma strptime_strftime:
  assumes "valid_date dt"
  shows "strptime DayMonthYear (strftime_dmY dt) = Some dt"
proof -
  obtain y m d where dt: "dt = (y, m, d)" by (cases dt) auto
  note b = valid_date_bounds [OF assms [unfolded dt]]
  have "match_fields (pad2 d @ CHR ''/'' # pad2 m @ CHR ''/'' # pad4 y) = Some (pad2 d, pad2 m, pad4 y)"
    by (simp add: match_fields_def until_slash_append pad2_no_slash)
  then show ?thesis
    using b assms by (simp add: dt field_d_pad2 field_m_pad2 field_Y_pad4 make_date_def)
qed

lemma make_date_valid: "make_date a b c = Some dt \<Longrightarrow> valid_date dt"
  by (auto simp: make_date_def split: option.splits if_splits)

lemma strptime_valid: "strptime f s = Some dt \<Longrightarrow> valid_date dt"
  by (cases f) (auto split: option.splits dest: make_date_valid)

lemma cell_date_valid: "cell_date c = Some dt \<Longrightarrow> valid_date dt"
  by (cases c) (auto simp del: strptime.simps split: if_splits dest: strptime_valid)

subsection \<open>Date conversion\<close>

lemma to_datetime_eq:
  "to_datetime cs =
     (if \<exists>c \<in> set cs. malformed c then Inl DateValueError else Inr (map cell_date cs))"
proof (induction cs)
  case Nil
  show ?case by simp
next
  case (Cons c cs)
  show ?case
  proof (cases c)
    case None
    then show ?thesis using Cons by simp
  next
    case (Some s)
    then show ?thesis using Cons by (auto simp del: strptime.simps split: option.splits)
  qed
qed

lemma to_datetime_ok:
  "\<forall>c \<in> set cs. \<not> malformed c \<Longrightarrow> to_datetime cs = Inr (map cell_date cs)"
  by (simp add: to_datetime_eq)








subsection \<open>Order of the dates\<close>

lemma those_map_Some: "those (map Some xs) = Some xs"
  by (induction xs) simp_all

lemma those_eq_Some: "those ds = Some xs \<Longrightarrow> ds = map Some xs"
proof (induction ds arbitrary: xs)
  case Nil
  then show ?case by simp
next
  case (Cons d ds)
  then show ?case by (auto split: option.splits)
qed

lemma strictly_decreasing_rev:
  assumes "strictly_decreasing ds"
  shows "strictly_increasing (rev ds)"
proof -
  obtain xs where xs: "those ds = Some xs" "sorted_wrt (\<lambda>a b. date_less b a) xs"
    using assms by (auto simp: strictly_decreasing_def split: option.splits)
  have "rev ds = map Some (rev xs)" using those_eq_Some [OF xs(1)] by (simp add: rev_map)
  then have "those (rev ds) = Some (rev xs)" by (simp add: those_map_Some)
  moreover have "sorted_wrt date_less (rev xs)" using xs(2) by (simp add: sorted_wrt_rev)
  ultimately show ?thesis by (simp add: strictly_increasing_def)
qed

lemma strictly_decreasing_all_dates:
  assumes "strictly_decreasing (map cell_date cs)"
  shows "\<forall>c \<in> set cs. \<not> malformed c"
proof
  fix c assume c: "c \<in> set cs"
  obtain xs where "those (map cell_date cs) = Some xs"
    using assms by (auto simp: strictly_decreasing_def split: option.splits)
  then have "map cell_date cs = map Some xs" by (rule those_eq_Some)
  then have "cell_date c \<in> set (map Some xs)" using c by (metis imageI set_map)
  then have "cell_date c \<noteq> None" by auto
  then show "\<not> malformed c" by (cases c) (auto simp del: strptime.simps)
qed

lemma plotted_cell:
  "(case map_option strftime_dmY (cell_date c) of None \<Rightarrow> None
    | Some s \<Rightarrow> strptime DayMonthYear s) = cell_date c"
proof (cases "cell_date c")
  case None
  then show ?thesis by simp
next
  case (Some dt)
  then have "valid_date dt" by (rule cell_date_valid)
  then show ?thesis using Some by (simp del: strptime.simps strftime_dmY.simps add: strptime_strftime)
qed

lemma plotted_dates_converted:
  "plotted_dates (df\<lparr>week_of := map (map_option strftime_dmY) (map cell_date cs)\<rparr>)
     = map cell_date cs"
proof -
  have "plotted_dates (df\<lparr>week_of := map (map_option strftime_dmY) (map cell_date cs)\<rparr>)
      = map (\<lambda>c. case map_option strftime_dmY (cell_date c) of None \<Rightarrow> None
                  | Some s \<Rightarrow> strptime DayMonthYear s) cs"
    unfolding plotted_dates_def by (simp del: strptime.simps strftime_dmY.simps add: comp_def)
  also have "\<dots> = map cell_date cs" by (simp only: plotted_cell)
  finally show ?thesis .
qed

lemma main_normalize_ok:
  assumes "\<forall>c \<in> set (week_of df). \<not> malformed c"
  shows "main_normalize df
     = Inr ((reverse_rows df)\<lparr>week_of :=
          map (map_option strftime_dmY) (map cell_date (rev (week_of df)))\<rparr>)"
proof -
  have "\<forall>c \<in> set (week_of (reverse_rows df)). \<not> malformed c"
    using assms by (simp add: reverse_rows_def)
  then have "to_datetime (week_of (reverse_rows df))
     = Inr (map cell_date (week_of (reverse_rows df)))"
    by (rule to_datetime_ok)
  then show ?thesis
    by (simp add: main_normalize_def convert_date_format_def)
       (simp add: reverse_rows_def)
qed

lemma ev_newest_first:
  "map cell_date (week_of newest_first) = [Some (2020, 2, 5), Some (2020, 1, 29), Some (2019, 12, 25)]"
  by (simp add: newest_first_def nat_strings_def
      match_fields_def make_date_def valid_date_def days_in_month_def leap_year_def
      digit_def)

lemma ev_repeated:
  "map cell_date (week_of repeated_dates) = [Some (2020, 1, 8), Some (2020, 1, 8), Some (2020, 1, 15)]"
  by (simp add: repeated_dates_def nat_strings_def
      match_fields_def make_date_def valid_date_def days_in_month_def leap_year_def
      digit_def)

text \<open>
  C7, as amended. The normalization of \<open>main\<close> checks no order: for every raw frame in
  which no date text raises, it yields a frame whose dates are the raw dates in reverse
  order and whose prices are the raw prices in reverse order, whatever the order of the
  dates; nothing is dropped, merged or refused.
\<close>

theorem normalize_keeps_every_row:
  assumes "\<forall>c \<in> set (week_of df). \<not> malformed c"
  shows "\<exists>df'. main_normalize df = Inr df'
           \<and> plotted_dates df' = rev (map cell_date (week_of df))
           \<and> spot_price df' = rev (spot_price df)"
proof -
  let ?df' = "(reverse_rows df)\<lparr>week_of :=
          map (map_option strftime_dmY) (map cell_date (rev (week_of df)))\<rparr>"
  have "main_normalize df = Inr ?df'" by (rule main_normalize_ok [OF assms])
  moreover have "plotted_dates ?df' = rev (map cell_date (week_of df))"
    by (simp only: plotted_dates_converted rev_map)
  moreover have "spot_price ?df' = rev (spot_price df)" by (simp add: reverse_rows_def)
  ultimately show ?thesis by blast
qed

text \<open>
  The hypothesis of C7 at the frame \<open>repeated_dates\<close>.
\<close>

theorem normalize_keeps_every_row_witness:
  "\<exists>df'. main_normalize repeated_dates = Inr df'
     \<and> plotted_dates df' = [Some (2020, 1, 15), Some (2020, 1, 8), Some (2020, 1, 8)]
     \<and> spot_price df' = [Fin 4, Fin 3, Fin 2]"
proof -
  have "\<forall>c \<in> set (map cell_date (week_of repeated_dates)). c \<noteq> None"
    unfolding ev_repeated by simp
  then have ok: "\<forall>c \<in> set (week_of repeated_dates). \<not> malformed c"
    by (metis cell_date.elims imageI set_map option.distinct(1) malformed.simps(2))
  have "rev (spot_price repeated_dates) = [Fin 4, Fin 3, Fin 2]"
    by (simp add: repeated_dates_def)
  then show ?thesis using normalize_keeps_every_row [OF ok] unfolding ev_repeated by simp
qed

text \<open>
  C7 as stated fails at the frame \<open>repeated_dates\<close>: after the reversal the dates are
  15, 8 and 8 January 2020, a decreasing pair and a repeated date, and the normalization
  returns the three rows.
\<close>

theorem repeated_dates_counterexample:
  "main_normalize repeated_dates
     = Inr (repeated_dates\<lparr>week_of := [Some ''15/01/2020'', Some ''08/01/2020'', Some ''08/01/2020''],
                            spot_price := [Fin 4, Fin 3, Fin 2]\<rparr>)
   \<and> plotted_dates (repeated_dates\<lparr>week_of := [Some ''15/01/2020'', Some ''08/01/2020'', Some ''08/01/2020''],
                            spot_price := [Fin 4, Fin 3, Fin 2]\<rparr>)
       = [Some (2020, 1, 15), Some (2020, 1, 8), Some (2020, 1, 8)]
   \<and> \<not> strictly_increasing [Some (2020, 1, 15), Some (2020, 1, 8), Some (2020, 1, 8)]"
  by (simp add: repeated_dates_def main_normalize_def reverse_rows_def convert_date_format_def
      nat_strings_def plotted_dates_def strictly_increasing_def
      match_fields_def make_date_def valid_date_def days_in_month_def leap_year_def
      digit_def digit_char_def pad2_def pad4_def)

text \<open>
  C8. For every raw frame whose dates all parse and are strictly decreasing (newest
  first), the normalization of \<open>main\<close>, the reversal followed by the date conversion,
  yields a frame of the same length whose dates, read in the format they were written
  in, are strictly increasing, and whose prices are the raw prices in reverse order.
\<close>

theorem normalize_strictly_increasing:
  assumes "strictly_decreasing (map cell_date (week_of df))"
  shows "\<exists>df'. main_normalize df = Inr df'
           \<and> strictly_increasing (plotted_dates df')
           \<and> length (week_of df') = length (week_of df)
           \<and> spot_price df' = rev (spot_price df)"
proof -
  let ?df' = "(reverse_rows df)\<lparr>week_of :=
          map (map_option strftime_dmY) (map cell_date (rev (week_of df)))\<rparr>"
  have ok: "\<forall>c \<in> set (week_of df). \<not> malformed c"
    by (rule strictly_decreasing_all_dates [OF assms])
  have "main_normalize df = Inr ?df'" by (rule main_normalize_ok [OF ok])
  moreover have "plotted_dates ?df' = rev (map cell_date (week_of df))"
    by (simp only: plotted_dates_converted rev_map)
  then have "strictly_increasing (plotted_dates ?df')"
    using strictly_decreasing_rev [OF assms] by simp
  moreover have "spot_price ?df' = rev (spot_price df)" by (simp add: reverse_rows_def)
  moreover have "length (week_of ?df') = length (week_of df)" by simp
  ultimately show ?thesis by blast
qed

text \<open>
  The hypothesis of C8 at the frame \<open>newest_first\<close>.
\<close>

theorem normalize_strictly_increasing_witness:
  "\<exists>df'. main_normalize newest_first = Inr df'
           \<and> strictly_increasing (plotted_dates df')
           \<and> length (week_of df') = 3
           \<and> spot_price df' = [Fin 4, Fin 3, Fin 2]"
proof -
  have "strictly_decreasing (map cell_date (week_of newest_first))"
    unfolding ev_newest_first by (simp add: strictly_decreasing_def)
  moreover have "length (week_of newest_first) = 3"
    "rev (spot_price newest_first) = [Fin 4, Fin 3, Fin 2]"
    by (simp_all add: newest_first_def)
  ultimately show ?thesis using normalize_strictly_increasing [of newest_first] by simp
qed

subsection \<open>Input frames are left unchanged\<close>

lemma df_copy_fresh:
  "a < length h \<Longrightarrow> df_copy h a = (c, h1) \<Longrightarrow>
   c = length h \<and> length h1 = Suc (length h) \<and> h1 ! c = h ! a \<and> (\<forall>b<length h. h1 ! b = h ! b)"
  by (auto simp: df_copy_def nth_append)

text \<open>
  C9. For every heap and every frame in it, each of \<open>calculate_ln_returns\<close>,
  \<open>calculate_rolling_volatility\<close> and \<open>convert_date_format\<close> leaves every frame that
  existed unchanged, its argument included, and when it returns a frame the reference is
  new and names the frame the function computes from its argument.
\<close>

theorem stages_leave_input_unchanged:
  assumes "a < length h"
  shows "(case calculate_ln_returns_obj h a of
            (c, h') \<Rightarrow> length h \<le> c \<and> c < length h' \<and> (\<forall>b<length h. h' ! b = h ! b)
                       \<and> h' ! c = calculate_ln_returns (h ! a))
       \<and> (case calculate_rolling_volatility_obj h a w of
            (r, h') \<Rightarrow> (\<forall>b<length h. h' ! b = h ! b)
                       \<and> (case r of
                            Inl e \<Rightarrow> calculate_rolling_volatility (h ! a) w = Inl e
                          | Inr c \<Rightarrow> length h \<le> c \<and> c < length h'
                                     \<and> calculate_rolling_volatility (h ! a) w = Inr (h' ! c)))
       \<and> (case convert_date_format_obj h a of
            (r, h') \<Rightarrow> (\<forall>b<length h. h' ! b = h ! b)
                       \<and> (case r of
                            Inl e \<Rightarrow> convert_date_format (h ! a) = Inl e
                          | Inr c \<Rightarrow> length h \<le> c \<and> c < length h'
                                     \<and> convert_date_format (h ! a) = Inr (h' ! c)))"
proof (intro conjI)
  show "case calculate_ln_returns_obj h a of
            (c, h') \<Rightarrow> length h \<le> c \<and> c < length h' \<and> (\<forall>b<length h. h' ! b = h ! b)
                       \<and> h' ! c = calculate_ln_returns (h ! a)"
    using assms by (simp add: calculate_ln_returns_obj_def df_copy_def nth_append)
  show "case calculate_rolling_volatility_obj h a w of
            (r, h') \<Rightarrow> (\<forall>b<length h. h' ! b = h ! b)
                       \<and> (case r of
                            Inl e \<Rightarrow> calculate_rolling_volatility (h ! a) w = Inl e
                          | Inr c \<Rightarrow> length h \<le> c \<and> c < length h'
                                     \<and> calculate_rolling_volatility (h ! a) w = Inr (h' ! c))"
    using assms
    by (cases "calculate_rolling_volatility (h ! a) w")
       (simp_all add: calculate_rolling_volatility_obj_def df_copy_def nth_append)
  show "case convert_date_format_obj h a of
            (r, h') \<Rightarrow> (\<forall>b<length h. h' ! b = h ! b)
                       \<and> (case r of
                            Inl e \<Rightarrow> convert_date_format (h ! a) = Inl e
                          | Inr c \<Rightarrow> length h \<le> c \<and> c < length h'
                                     \<and> convert_date_format (h ! a) = Inr (h' ! c))"
    using assms
    by (cases "convert_date_format (h ! a)")
       (simp_all add: convert_date_format_obj_def df_copy_def nth_append)
qed

text \<open>
  The hypothesis of C9 at the heap that holds the frame \<open>two_weeks_raw\<close> alone.
\<close>

theorem stages_leave_input_unchanged_witness:
  "fst (calculate_ln_returns_obj [two_weeks_raw] 0) \<noteq> 0
   \<and> snd (calculate_ln_returns_obj [two_weeks_raw] 0) ! 0 = two_weeks_raw
   \<and> snd (calculate_rolling_volatility_obj [two_weeks_raw] 0 2) ! 0 = two_weeks_raw
   \<and> snd (convert_date_format_obj [two_weeks_raw] 0) ! 0 = two_weeks_raw"
proof -
  have a: "(0::nat) < length [two_weeks_raw]" by simp
  show ?thesis
    using stages_leave_input_unchanged [OF a, of 2]
    by (auto simp: split_beta)
qed

end
